theory Spec2Isabelle
  imports Complex_Main "HOL-Library.Word"
begin

section \<open>Machine numbers\<close>

subsection \<open>The type \<open>double\<close>: IEEE 754 binary64 bit patterns\<close>

text \<open>
  A C++ \<open>double\<close> is modelled by its 64-bit pattern: bit 63 is the sign, bits 62..52
  the biased exponent field and bits 51..0 the fraction field. Every pattern is a
  value of the type, so no operation of the model needs a well-formedness premise.
\<close>

type_synonym double = "64 word"

definition sign_of :: "double \<Rightarrow> bool" where
  "sign_of w = (2 ^ 63 \<le> unat w)"

definition expo_of :: "double \<Rightarrow> nat" where
  "expo_of w = (unat w div 2 ^ 52) mod 2048"

definition frac_of :: "double \<Rightarrow> nat" where
  "frac_of w = unat w mod 2 ^ 52"

definition is_nan :: "double \<Rightarrow> bool" where
  "is_nan w = (expo_of w = 2047 \<and> frac_of w \<noteq> 0)"

definition is_inf :: "double \<Rightarrow> bool" where
  "is_inf w = (expo_of w = 2047 \<and> frac_of w = 0)"

definition is_finite :: "double \<Rightarrow> bool" where
  "is_finite w = (expo_of w < 2047)"

text \<open>
  A finite pattern denotes \<open>\<plusminus> mant * 2 ^ expn\<close>: the hidden bit is present unless the
  exponent field is 0 (zero and the subnormal numbers).
\<close>

definition mant_of :: "double \<Rightarrow> nat" where
  "mant_of w = (if expo_of w = 0 then frac_of w else 2 ^ 52 + frac_of w)"

definition expn_of :: "double \<Rightarrow> int" where
  "expn_of w = (if expo_of w = 0 then - 1074 else int (expo_of w) - 1075)"

definition valof :: "double \<Rightarrow> real" where
  "valof w = (if sign_of w then - 1 else 1) * real (mant_of w) * 2 powi expn_of w"

text \<open>
  Comparison is by exact value (so \<open>-0.0\<close> equals \<open>0.0\<close>), an infinity lies beyond every
  finite value, and a NaN compares false with everything. The key of a pattern is its
  value scaled by \<open>2 ^ 1074\<close>, an integer; the infinities get the first power of two
  that no finite key reaches.
\<close>

definition ord_key :: "double \<Rightarrow> int" where
  "ord_key w =
     (if sign_of w then - 1 else 1) *
     (if expo_of w = 2047 then 2 ^ 2100
      else int (mant_of w) * 2 ^ nat (expn_of w + 1074))"

definition dle :: "double \<Rightarrow> double \<Rightarrow> bool" where
  "dle x y = (\<not> is_nan x \<and> \<not> is_nan y \<and> ord_key x \<le> ord_key y)"

definition dlt :: "double \<Rightarrow> double \<Rightarrow> bool" where
  "dlt x y = (\<not> is_nan x \<and> \<not> is_nan y \<and> ord_key x < ord_key y)"

definition dgt :: "double \<Rightarrow> double \<Rightarrow> bool" where
  "dgt x y = dlt y x"

text \<open>The literals of the program: \<open>0.0\<close> (also the \<open>int\<close> 0 converted), \<open>1.50\<close>, \<open>3.00\<close>
  and the \<open>int\<close> 5 converted to \<open>double\<close>.\<close>

definition d0 :: double where "d0 = 0"
definition d1_50 :: double where "d1_50 = 0x3FF8000000000000"
definition d3_00 :: double where "d3_00 = 0x4008000000000000"
definition d5 :: double where "d5 = 0x4014000000000000"

subsection \<open>Multiplication, rounded to nearest with ties to even\<close>

text \<open>
  The product \<open>x * y\<close> of two \<open>double\<close>s is the exact product of their values rounded to
  the nearest value of the format, a tie going to the even significand (the rounding
  mode in force when a program starts). It is computed on the significands and
  exponents; \<open>bitlen m\<close> is the number of bits of \<open>m\<close>.
\<close>

function bitlen :: "nat \<Rightarrow> nat" where
  "bitlen n = (if n = 0 then 0 else Suc (bitlen (n div 2)))"
  by pat_completeness auto
termination
  by (relation "measure id") auto

declare bitlen.simps [simp del]

text \<open>\<open>rne m k\<close> is \<open>m / 2 ^ k\<close> rounded to the nearest natural number, a tie going to the
  even neighbour.\<close>

definition rne :: "nat \<Rightarrow> nat \<Rightarrow> nat" where
  "rne m k =
     (let q = m div 2 ^ k; r = m mod 2 ^ k
      in if 2 * r < 2 ^ k then q
         else if 2 ^ k < 2 * r then q + 1
         else if even q then q else q + 1)"

definition pack :: "bool \<Rightarrow> nat \<Rightarrow> nat \<Rightarrow> double" where
  "pack s E F = word_of_nat ((if s then 2 ^ 63 else 0) + E * 2 ^ 52 + F)"

text \<open>
  \<open>round_sig m e\<close> rounds the exact magnitude \<open>m * 2 ^ e\<close> to a significand and an
  exponent of the format: the significand is cut to 53 bits, or to fewer where the
  exponent would fall below that of the subnormal numbers, and a significand that
  rounds up to \<open>2 ^ 53\<close> moves to the next exponent.
\<close>

definition round_sig :: "nat \<Rightarrow> int \<Rightarrow> nat \<times> int" where
  "round_sig m e =
     (let q = max (e + int (bitlen m) - 53) (- 1074);
          r = (if q \<le> e then m * 2 ^ nat (e - q) else rne m (nat (q - e)))
      in if r = 2 ^ 53 then (2 ^ 52, q + 1) else (r, q))"

text \<open>
  \<open>encode s r q\<close> is the pattern of \<open>\<plusminus> r * 2 ^ q\<close> for a significand and exponent as
  \<open>round_sig\<close> returns them: zero or subnormal without the hidden bit, an infinity beyond
  the largest exponent, and a normal number otherwise.
\<close>

definition encode :: "bool \<Rightarrow> nat \<Rightarrow> int \<Rightarrow> double" where
  "encode s r q =
     (if r < 2 ^ 52 then pack s 0 r
      else if 971 < q then pack s 2047 0
      else pack s (nat (q + 1075)) (r - 2 ^ 52))"

definition round_pack :: "bool \<Rightarrow> nat \<Rightarrow> int \<Rightarrow> double" where
  "round_pack s m e = (case round_sig m e of (r, q) \<Rightarrow> encode s r q)"

text \<open>
  A NaN operand is returned with its quiet bit set (the first one, if both are), and
  zero times infinity is the default NaN of x86-64; no property below depends on
  the payload.
\<close>

definition quiet :: "double \<Rightarrow> double" where
  "quiet w = or w 0x0008000000000000"

definition default_nan :: double where
  "default_nan = 0xFFF8000000000000"

definition dmul :: "double \<Rightarrow> double \<Rightarrow> double" where
  "dmul x y =
     (if is_nan x then quiet x
      else if is_nan y then quiet y
      else if is_inf x \<or> is_inf y then
        (if (is_finite x \<and> mant_of x = 0) \<or> (is_finite y \<and> mant_of y = 0) then default_nan
         else pack (sign_of x \<noteq> sign_of y) 2047 0)
      else round_pack (sign_of x \<noteq> sign_of y) (mant_of x * mant_of y) (expn_of x + expn_of y))"


section \<open>The output stream\<close>

text \<open>
  \<open>std::cout\<close> is the text written so far together with the two formatting settings the
  program changes: whether the float field is \<open>std::fixed\<close>, and the precision. Both stay
  set once a manipulator has set them. The rendering of a \<open>double\<close> under given settings
  belongs to the C++ library, not to this program, and is a parameter \<open>fd\<close> of every
  printing function.
\<close>

record ostream =
  buf :: string
  is_fixed :: bool
  prec :: nat

type_synonym double_fmt = "bool \<Rightarrow> nat \<Rightarrow> double \<Rightarrow> string"

definition cout0 :: ostream where
  "cout0 = \<lparr>buf = [], is_fixed = False, prec = 6\<rparr>"

text \<open>An \<open>int\<close> and a \<open>size_t\<close> are written in decimal, the stream being in its initial
  state for integers throughout.\<close>

definition digit :: "nat \<Rightarrow> char" where
  "digit n = ''0123456789'' ! (n mod 10)"

function show_nat :: "nat \<Rightarrow> string" where
  "show_nat n = (if n < 10 then [digit n] else show_nat (n div 10) @ [digit n])"
  by pat_completeness auto
termination
  by (relation "measure id") auto

declare show_nat.simps [simp del]

definition show_int :: "int \<Rightarrow> string" where
  "show_int i = (if i < 0 then CHR ''-'' # show_nat (nat (- i)) else show_nat (nat i))"

definition put_str :: "string \<Rightarrow> ostream \<Rightarrow> ostream" where
  "put_str t s = s\<lparr>buf := buf s @ t\<rparr>"

definition put_int :: "32 word \<Rightarrow> ostream \<Rightarrow> ostream" where
  "put_int i s = s\<lparr>buf := buf s @ show_int (sint i)\<rparr>"

definition put_size :: "nat \<Rightarrow> ostream \<Rightarrow> ostream" where
  "put_size n s = s\<lparr>buf := buf s @ show_nat n\<rparr>"

definition put_double :: "double_fmt \<Rightarrow> double \<Rightarrow> ostream \<Rightarrow> ostream" where
  "put_double fd x s = s\<lparr>buf := buf s @ fd (is_fixed s) (prec s) x\<rparr>"

definition set_fixed :: "ostream \<Rightarrow> ostream" where
  "set_fixed s = s\<lparr>is_fixed := True\<rparr>"

definition setprecision :: "nat \<Rightarrow> ostream \<Rightarrow> ostream" where
  "setprecision n s = s\<lparr>prec := n\<rparr>"

definition endl :: "ostream \<Rightarrow> ostream" where
  "endl s = s\<lparr>buf := buf s @ ''\<newline>''\<rparr>"

section \<open>Rides\<close>

text \<open>
  An object of class \<open>Ride\<close> is its five fields and its dynamic type, \<open>StandardRide\<close> or
  \<open>PremiumRide\<close> (\<open>Ride\<close> itself is abstract). An exception is a value: a constructor
  that throws returns \<open>Inl\<close> of it, and then no object has been built.
\<close>

datatype exn = invalid_argument string

datatype ride_kind = Standard | Premium

record ride =
  kind :: ride_kind
  rideID :: "32 word"
  pickupLocation :: string
  dropoffLocation :: string
  distance :: double
  fare :: double

definition Ride :: "ride_kind \<Rightarrow> 32 word \<Rightarrow> string \<Rightarrow> string \<Rightarrow> double \<Rightarrow> exn + ride" where
  "Ride k i pickup dropoff dst =
     (if dle dst d0 then Inl (invalid_argument ''Distance must be greater than 0'')
      else Inr \<lparr>kind = k, rideID = i, pickupLocation = pickup, dropoffLocation = dropoff,
                distance = dst, fare = d0\<rparr>)"

definition StandardRide :: "32 word \<Rightarrow> string \<Rightarrow> string \<Rightarrow> double \<Rightarrow> exn + ride" where
  "StandardRide i pickup dropoff dst = Ride Standard i pickup dropoff dst"

definition PremiumRide :: "32 word \<Rightarrow> string \<Rightarrow> string \<Rightarrow> double \<Rightarrow> exn + ride" where
  "PremiumRide i pickup dropoff dst = Ride Premium i pickup dropoff dst"

definition calculateFare :: "ride \<Rightarrow> ride" where
  "calculateFare r =
     (case kind r of
        Standard \<Rightarrow> r\<lparr>fare := dmul (distance r) d1_50\<rparr>
      | Premium \<Rightarrow> r\<lparr>fare := dmul (distance r) d3_00\<rparr>)"

definition Ride_rideDetails :: "double_fmt \<Rightarrow> ride \<Rightarrow> ostream \<Rightarrow> ostream" where
  "Ride_rideDetails fd r s =
     (let s = put_str ''Ride ID: '' s;
          s = put_int (rideID r) s;
          s = put_str ''\<newline>Pickup: '' s;
          s = put_str (pickupLocation r) s;
          s = put_str ''\<newline>Dropoff: '' s;
          s = put_str (dropoffLocation r) s;
          s = put_str ''\<newline>Distance: '' s;
          s = put_double fd (distance r) s;
          s = put_str '' miles'' s;
          s = put_str ''\<newline>Fare: $'' s;
          s = set_fixed s;
          s = setprecision 2 s
      in put_double fd (fare r) s)"

definition rideDetails :: "double_fmt \<Rightarrow> ride \<Rightarrow> ostream \<Rightarrow> ostream" where
  "rideDetails fd r s =
     (case kind r of
        Standard \<Rightarrow> endl (put_str '' (Standard Ride)'' (Ride_rideDetails fd r s))
      | Premium \<Rightarrow> endl (put_str '' (Premium Ride)'' (Ride_rideDetails fd r s)))"

section \<open>Drivers and riders\<close>

text \<open>
  A \<open>std::shared_ptr<Ride>\<close> is \<open>None\<close> when null and \<open>Some a\<close> when it shares the object
  at address \<open>a\<close> of the store; a shared pointer keeps its object alive, so the store
  has a ride at every address. The member \<open>name\<close> of the two classes is \<open>driverName\<close> in
  one record and \<open>riderName\<close> in the other.
\<close>

type_synonym ride_ptr = "nat option"
type_synonym store = "nat \<Rightarrow> ride"

record driver =
  driverID :: "32 word"
  driverName :: string
  rating :: double
  assignedRides :: "ride_ptr list"

definition Driver :: "32 word \<Rightarrow> string \<Rightarrow> double \<Rightarrow> exn + driver" where
  "Driver i n r =
     (if dlt r d0 \<or> dgt r d5 then Inl (invalid_argument ''Rating must be between 0 and 5'')
      else Inr \<lparr>driverID = i, driverName = n, rating = r, assignedRides = []\<rparr>)"

text \<open>A method that changes its object returns the object as the call leaves it, and the
  exception the call threw, if any.\<close>

definition addRide :: "driver \<Rightarrow> ride_ptr \<Rightarrow> driver \<times> exn option" where
  "addRide d p =
     (if p = None then (d, Some (invalid_argument ''Invalid ride pointer''))
      else (d\<lparr>assignedRides := assignedRides d @ [p]\<rparr>, None))"

definition getDriverInfo :: "double_fmt \<Rightarrow> driver \<Rightarrow> ostream \<Rightarrow> ostream" where
  "getDriverInfo fd d s =
     (let s = put_str ''Driver ID: '' s;
          s = put_int (driverID d) s;
          s = put_str ''\<newline>Name: '' s;
          s = put_str (driverName d) s;
          s = put_str ''\<newline>Rating: '' s;
          s = set_fixed s;
          s = setprecision 2 s;
          s = put_double fd (rating d) s;
          s = put_str ''\<newline>Completed Rides: '' s;
          s = put_size (length (assignedRides d)) s
      in endl s)"

record rider =
  riderID :: "32 word"
  riderName :: string
  requestedRides :: "ride_ptr list"

definition Rider :: "32 word \<Rightarrow> string \<Rightarrow> rider" where
  "Rider i n = \<lparr>riderID = i, riderName = n, requestedRides = []\<rparr>"

definition requestRide :: "rider \<Rightarrow> ride_ptr \<Rightarrow> rider \<times> exn option" where
  "requestRide r p =
     (if p = None then (r, Some (invalid_argument ''Invalid ride pointer''))
      else (r\<lparr>requestedRides := requestedRides r @ [p]\<rparr>, None))"

text \<open>The range-based \<open>for\<close> of \<open>viewRides\<close>; dereferencing a null pointer has no defined
  behaviour, which is the result \<open>None\<close>.\<close>

fun viewRides_loop :: "double_fmt \<Rightarrow> store \<Rightarrow> ride_ptr list \<Rightarrow> ostream \<Rightarrow> ostream option" where
  "viewRides_loop fd h [] s = Some s"
| "viewRides_loop fd h (None # ps) s = None"
| "viewRides_loop fd h (Some a # ps) s = viewRides_loop fd h ps (rideDetails fd (h a) s)"

definition viewRides :: "double_fmt \<Rightarrow> store \<Rightarrow> rider \<Rightarrow> ostream \<Rightarrow> ostream option" where
  "viewRides fd h r s =
     (let s = put_str ''Rider ID: '' s;
          s = put_int (riderID r) s;
          s = put_str ''\<newline>Name: '' s;
          s = put_str (riderName r) s;
          s = put_str ''\<newline>Requested Rides History:'' s;
          s = endl s
      in if requestedRides r = [] then Some (endl (put_str ''No rides requested yet.'' s))
         else viewRides_loop fd h (requestedRides r) s)"


section \<open>Client programs\<close>

text \<open>
  A client of the classes, as \<open>main\<close> is, makes objects and calls their public methods.
  Its state is the store of rides made so far (\<open>nrides\<close> of them, at the addresses below
  \<open>nrides\<close>), its drivers and riders, and \<open>std::cout\<close>. A constructor that throws
  makes nothing; a client that catches the exception goes on in the same state.
\<close>

record world =
  rides :: store
  nrides :: nat
  drivers :: "driver list"
  riders :: "rider list"
  cout :: ostream

datatype call =
    NewStandardRide "32 word" string string double
  | NewPremiumRide "32 word" string string double
  | CalculateFare nat
  | RideDetails nat
  | NewDriver "32 word" string double
  | AddRide nat ride_ptr
  | GetDriverInfo nat
  | NewRider "32 word" string
  | RequestRide nat ride_ptr
  | ViewRides nat

definition make_shared :: "exn + ride \<Rightarrow> world \<Rightarrow> world" where
  "make_shared res w =
     (case res of
        Inl e \<Rightarrow> w
      | Inr r \<Rightarrow> w\<lparr>rides := (rides w)(nrides w := r), nrides := Suc (nrides w)\<rparr>)"

fun step :: "double_fmt \<Rightarrow> world \<Rightarrow> call \<Rightarrow> world" where
  "step fd w (NewStandardRide i p q d) = make_shared (StandardRide i p q d) w"
| "step fd w (NewPremiumRide i p q d) = make_shared (PremiumRide i p q d) w"
| "step fd w (CalculateFare a) = w\<lparr>rides := (rides w)(a := calculateFare (rides w a))\<rparr>"
| "step fd w (RideDetails a) = w\<lparr>cout := rideDetails fd (rides w a) (cout w)\<rparr>"
| "step fd w (NewDriver i n r) =
     (case Driver i n r of Inl e \<Rightarrow> w | Inr d \<Rightarrow> w\<lparr>drivers := drivers w @ [d]\<rparr>)"
| "step fd w (AddRide k p) =
     (if k < length (drivers w)
      then w\<lparr>drivers := (drivers w)[k := fst (addRide (drivers w ! k) p)]\<rparr> else w)"
| "step fd w (GetDriverInfo k) =
     (if k < length (drivers w)
      then w\<lparr>cout := getDriverInfo fd (drivers w ! k) (cout w)\<rparr> else w)"
| "step fd w (NewRider i n) = w\<lparr>riders := riders w @ [Rider i n]\<rparr>"
| "step fd w (RequestRide k p) =
     (if k < length (riders w)
      then w\<lparr>riders := (riders w)[k := fst (requestRide (riders w ! k) p)]\<rparr> else w)"
| "step fd w (ViewRides k) =
     (if k < length (riders w)
      then (case viewRides fd (rides w) (riders w ! k) (cout w) of
              None \<Rightarrow> w | Some s \<Rightarrow> w\<lparr>cout := s\<rparr>)
      else w)"

fun run :: "double_fmt \<Rightarrow> world \<Rightarrow> call list \<Rightarrow> world" where
  "run fd w [] = w"
| "run fd w (c # cs) = run fd (step fd w c) cs"

text \<open>A caller that adds rides one after the other, catching what \<open>addRide\<close> throws, and
  counts the calls that returned normally.\<close>

fun addRides :: "driver \<Rightarrow> ride_ptr list \<Rightarrow> driver \<times> nat" where
  "addRides d [] = (d, 0)"
| "addRides d (p # ps) =
     (case addRide d p of
        (d', None) \<Rightarrow> (case addRides d' ps of (d'', n) \<Rightarrow> (d'', Suc n))
      | (d', Some e) \<Rightarrow> addRides d' ps)"

text \<open>What \<open>rideDetails\<close> writes for a ride on a stream with the given settings.\<close>

definition describe :: "double_fmt \<Rightarrow> bool \<Rightarrow> nat \<Rightarrow> ride \<Rightarrow> string" where
  "describe fd fx pr r = buf (rideDetails fd r \<lparr>buf = [], is_fixed = fx, prec = pr\<rparr>)"


section \<open>Properties\<close>

lemmas dbl_eval = d0_def d1_50_def d3_00_def d5_def is_nan_def is_inf_def is_finite_def
  expo_of_def frac_of_def sign_of_def mant_of_def expn_of_def ord_key_def dle_def dlt_def dgt_def

lemmas dmul_eval = dmul_def round_pack_def round_sig_def encode_def pack_def rne_def
  bitlen.simps Let_def quiet_def default_nan_def

lemmas put_defs = put_str_def put_int_def put_size_def put_double_def set_fixed_def
  setprecision_def endl_def

lemma dgt_not_dle: "dgt x y \<Longrightarrow> \<not> dle x y"
  by (simp add: dgt_def dlt_def dle_def)

lemma dle_not_dlt: "dle x y \<Longrightarrow> \<not> dlt y x"
  by (simp add: dlt_def dle_def)

subsection \<open>The arithmetic of \<open>double\<close>\<close>

text \<open>The number of bits of a positive number.\<close>

lemma bitlen_bounds: "0 < n \<Longrightarrow> 2 ^ (bitlen n - 1) \<le> n \<and> n < 2 ^ bitlen n"
proof (induction n rule: bitlen.induct)
  case (1 n)
  show ?case
  proof (cases "n div 2 = 0")
    case True
    with "1.prems" have "n = 1" by presburger
    then show ?thesis by (simp add: bitlen.simps)
  next
    case False
    with "1.IH" "1.prems" have ih: "2 ^ (bitlen (n div 2) - 1) \<le> n div 2" "n div 2 < 2 ^ bitlen (n div 2)"
      by simp_all
    from False have pos: "0 < bitlen (n div 2)" by (simp add: bitlen.simps)
    have b: "bitlen n = Suc (bitlen (n div 2))" using "1.prems" by (subst bitlen.simps) simp
    from pos obtain j where j: "bitlen (n div 2) = Suc j" by (cases "bitlen (n div 2)") auto
    from ih j have "2 * 2 ^ j \<le> n" "n < 2 * 2 ^ Suc j" by auto
    with b j show ?thesis by simp
  qed
qed

text \<open>Rounding to nearest is off by at most half a unit.\<close>

lemma rne_error: "2 * \<bar>int (rne m k) * 2 ^ k - int m\<bar> \<le> 2 ^ k"
proof -
  define P :: nat where "P = 2 ^ k"
  define q where "q = m div P"
  define r where "r = m mod P"
  have P: "0 < P" by (simp add: P_def)
  have m: "m = q * P + r" by (simp add: q_def r_def)
  have r: "r < P" using P by (simp add: r_def)
  have rne: "rne m k = (if 2 * r < P then q else if P < 2 * r then q + 1
         else if even q then q else q + 1)"
    by (simp add: rne_def q_def r_def P_def Let_def)
  have "2 * \<bar>int (rne m k) * int P - int m\<bar> \<le> int P"
  proof (cases "rne m k = q")
    case True
    with rne have "2 * r \<le> P" by (auto split: if_splits)
    with True m show ?thesis by simp
  next
    case False
    with rne have up: "rne m k = q + 1" and "P \<le> 2 * r" by (auto split: if_splits)
    have "int (q + 1) * int P - int m = int P - int r"
      by (subst m) (simp add: algebra_simps)
    with up r \<open>P \<le> 2 * r\<close> show ?thesis by simp
  qed
  then show ?thesis by (simp add: P_def)
qed

lemma rne_bounds: "m div 2 ^ k \<le> rne m k \<and> rne m k \<le> m div 2 ^ k + 1"
  by (simp add: rne_def Let_def)

text \<open>The fields of a packed pattern.\<close>

lemma unat_word64: "n < 2 ^ 64 \<Longrightarrow> unat (word_of_nat n :: 64 word) = n"
  by (simp only: unat_of_nat) simp

lemma unat_pack:
  assumes "E < 2048" and "F < 2 ^ 52"
  shows "unat (pack s E F) = (if s then 2 ^ 63 else 0) + E * 2 ^ 52 + F"
proof -
  from assms have "E * 2 ^ 52 \<le> 2047 * 2 ^ 52" by simp
  with assms have "(if s then 2 ^ 63 else 0) + E * 2 ^ 52 + F < 2 ^ 64"
    by (simp split: if_splits)
  then show ?thesis unfolding pack_def by (rule unat_word64)
qed

lemma pack_fields:
  assumes "E < 2048" and "F < 2 ^ 52"
  shows "sign_of (pack s E F) = s" "expo_of (pack s E F) = E" "frac_of (pack s E F) = F"
proof -
  note u = unat_pack [OF assms, of s]
  from assms have le: "E * 2 ^ 52 \<le> 2047 * 2 ^ 52" by simp
  show "sign_of (pack s E F) = s"
    using assms le by (simp add: sign_of_def u)
  have "((if s then 2 ^ 63 else 0) + E * 2 ^ 52 + F) div 2 ^ 52 = (if s then 2048 else 0) + E"
    using assms by (simp add: div_add1_eq)
  then show "expo_of (pack s E F) = E"
    using assms by (simp add: expo_of_def u)
  have "((if s then 2 ^ 63 else 0) + E * 2 ^ 52 + F) mod 2 ^ 52 = F"
    using assms by (simp add: mod_add_eq [symmetric])
  then show "frac_of (pack s E F) = F"
    by (simp add: frac_of_def u)
qed

text \<open>
  The significand and exponent that \<open>round_sig\<close> computes for \<open>m * 2 ^ e\<close>, before a
  significand of \<open>2 ^ 53\<close> is moved to the next exponent: the significand has at most 53
  bits (or is \<open>2 ^ 53\<close>), it lacks the hidden bit only at the least exponent, and it is
  within half a unit in the last place, a unit that is at most \<open>2 ^ - 52\<close> of the value
  unless the exponent is the least one.
\<close>

lemma powi_shift: "(2::real) powi (e + int k) = 2 powi e * 2 ^ k"
  by (simp add: power_int_add)

lemma round_sig_pre:
  fixes m :: nat and e :: int
  assumes m: "0 < m"
  defines "q0 \<equiv> max (e + int (bitlen m) - 53) (- 1074)"
  defines "r0 \<equiv> (if q0 \<le> e then m * 2 ^ nat (e - q0) else rne m (nat (q0 - e)))"
  shows "r0 \<le> 2 ^ 53" 
    and "r0 < 2 ^ 52 \<Longrightarrow> q0 = - 1074"
    and "2 * \<bar>real r0 * 2 powi q0 - real m * 2 powi e\<bar> \<le> 2 powi q0"
    and "q0 = - 1074 \<or> 2 powi q0 * 2 ^ 52 \<le> real m * 2 powi e"
proof -
  define bl where "bl = bitlen m"
  from bitlen_bounds [OF m] have lo: "2 ^ (bl - 1) \<le> m" and hi: "m < 2 ^ bl"
    by (simp_all add: bl_def)
  from m hi have blpos: "0 < bl" by (cases bl) auto
  have q0: "e + int bl - 53 \<le> q0" "- 1074 \<le> q0" "q0 = - 1074 \<or> q0 = e + int bl - 53"
    by (auto simp: q0_def bl_def max_def)
  show ulp: "q0 = - 1074 \<or> 2 powi q0 * 2 ^ 52 \<le> real m * 2 powi e"
  proof (cases "q0 = - 1074")
    case False
    with q0 have eq: "q0 = e + int bl - 53" by simp
    with blpos have "q0 + 52 = e + int (bl - 1)" by (simp add: of_nat_diff)
    then have "(2::real) powi q0 * 2 ^ 52 = 2 powi e * 2 ^ (bl - 1)"
      by (metis powi_shift of_nat_numeral)
    also have "\<dots> \<le> 2 powi e * real m" using lo
      by (metis mult_left_mono of_nat_le_iff of_nat_numeral of_nat_power zero_le_numeral zero_le_power_int)
    finally show ?thesis by (simp add: mult.commute)
  qed simp
  show "r0 \<le> 2 ^ 53"
  proof (cases "q0 \<le> e")
    case True
    define j where "j = nat (e - q0)"
    from True q0(1) have "bl + j \<le> 53" by (simp add: j_def)
    then have "(2::nat) ^ (bl + j) \<le> 2 ^ 53" by (rule power_increasing) simp
    moreover from hi have "m * 2 ^ j < 2 ^ bl * 2 ^ j" by simp
    moreover have "(2::nat) ^ bl * 2 ^ j = 2 ^ (bl + j)" by (simp add: power_add)
    ultimately have "m * 2 ^ j < 2 ^ 53" by linarith
    with True show ?thesis by (simp add: r0_def j_def)
  next
    case False
    define k where "k = nat (q0 - e)"
    from False q0(1) have "bl \<le> 53 + k" by (simp add: k_def)
    then have "(2::nat) ^ bl \<le> 2 ^ (53 + k)" by (rule power_increasing) simp
    moreover have "(2::nat) ^ (53 + k) = 2 ^ 53 * 2 ^ k" by (rule power_add)
    ultimately have "m < 2 ^ 53 * 2 ^ k" using hi by linarith
    then have "m div 2 ^ k < 2 ^ 53" by (rule less_mult_imp_div_less)
    with rne_bounds [of m k] have "rne m k \<le> 2 ^ 53" by simp
    with False show ?thesis by (simp add: r0_def k_def)
  qed
  show "q0 = - 1074" if small: "r0 < 2 ^ 52"
  proof (rule ccontr)
    assume "q0 \<noteq> - 1074"
    with q0 have eq: "q0 = e + int bl - 53" by simp
    show False
    proof (cases "q0 \<le> e")
      case True
      define j where "j = nat (e - q0)"
      from True eq blpos have "(bl - 1) + j = 52" by (simp add: j_def)
      then have "(2::nat) ^ 52 = 2 ^ (bl - 1) * 2 ^ j" by (simp add: power_add [symmetric])
      also have "\<dots> \<le> m * 2 ^ j" using lo by simp
      finally have "2 ^ 52 \<le> r0" using True by (simp add: r0_def j_def)
      with small show False by simp
    next
      case False
      define k where "k = nat (q0 - e)"
      from False eq blpos have "bl - 1 = 52 + k" by (simp add: k_def)
      with lo have "2 ^ 52 * 2 ^ k \<le> m" by (simp add: power_add)
      then have "(2 ^ 52 * 2 ^ k) div 2 ^ k \<le> m div 2 ^ k" by (rule div_le_mono)
      then have "2 ^ 52 \<le> m div 2 ^ k" by simp
      with rne_bounds [of m k] have "2 ^ 52 \<le> rne m k" by simp
      with False small show False by (simp add: r0_def k_def)
    qed
  qed
  show "2 * \<bar>real r0 * 2 powi q0 - real m * 2 powi e\<bar> \<le> 2 powi q0" 
  proof (cases "q0 \<le> e")
    case True
    then have "r0 = m * 2 ^ nat (e - q0)" by (simp add: r0_def)
    moreover from True have "e = q0 + int (nat (e - q0))" by simp
    then have "(2::real) powi e = 2 powi q0 * 2 ^ nat (e - q0)" by (metis powi_shift)
    ultimately have "real r0 * 2 powi q0 = real m * 2 powi e" by simp
    then show ?thesis by simp
  next
    case False
    define k where "k = nat (q0 - e)"
    from False have r0: "r0 = rne m k" by (simp add: r0_def k_def)
    from False have "q0 = e + int k" by (simp add: k_def)
    then have p: "(2::real) powi q0 = 2 powi e * 2 ^ k" by (simp only: powi_shift)
    have "real r0 * 2 powi q0 - real m * 2 powi e = 2 powi e * (real r0 * 2 ^ k - real m)"
      by (simp add: p algebra_simps)
    also have "\<dots> = 2 powi e * real_of_int (int (rne m k) * 2 ^ k - int m)"
      by (simp add: r0)
    finally have "2 * \<bar>real r0 * 2 powi q0 - real m * 2 powi e\<bar> =
       2 powi e * real_of_int (2 * \<bar>int (rne m k) * 2 ^ k - int m\<bar>)"
      by (simp add: abs_mult)
    also have "\<dots> \<le> 2 powi e * real_of_int (2 ^ k)"
      using rne_error [of m k] by (intro mult_left_mono) (simp_all only: of_int_le_iff zero_le_power_int zero_le_numeral)
    finally show ?thesis by (simp add: p)
  qed
qed

lemma round_sig_props:
  fixes m :: nat and e :: int
  assumes m: "0 < m" and rs: "round_sig m e = (r, q)"
  shows "r < 2 ^ 53" and "- 1074 \<le> q" and "r < 2 ^ 52 \<Longrightarrow> q = - 1074"
    and "\<bar>real r * 2 powi q - real m * 2 powi e\<bar>
           \<le> max (real m * 2 powi e / 2 ^ 53) (2 powi (- 1075))"
    and "real m * 2 powi e \<le> (2 ^ 53 - 1) * 2 ^ 971 \<Longrightarrow> q \<le> 971"
proof -
  define v where "v = real m * 2 powi e"
  define q0 where "q0 = max (e + int (bitlen m) - 53) (- 1074)"
  define r0 where "r0 = (if q0 \<le> e then m * 2 ^ nat (e - q0) else rne m (nat (q0 - e)))"
  note pre = round_sig_pre [OF m, of e, folded q0_def, folded r0_def, folded v_def]
  have q0: "- 1074 \<le> q0" by (simp add: q0_def)
  have "round_sig m e = (if r0 = 2 ^ 53 then (2 ^ 52, q0 + 1) else (r0, q0))"
    unfolding round_sig_def Let_def q0_def r0_def by (rule refl)
  with rs have rq: "(r, q) = (if r0 = 2 ^ 53 then (2 ^ 52, q0 + 1) else (r0, q0))"
    by (simp only:)
  have same: "real r * 2 powi q = real r0 * 2 powi q0"
  proof (cases "r0 = 2 ^ 53")
    case True
    with rq have "r = 2 ^ 52" "q = q0 + 1" by simp_all
    with True show ?thesis by (simp add: power_int_add)
  next
    case False
    with rq show ?thesis by simp
  qed
  from rq pre(1) show "r < 2 ^ 53" by (auto split: if_splits)
  from rq q0 show "- 1074 \<le> q" by (auto split: if_splits)
  from rq pre(2) show "q = - 1074" if "r < 2 ^ 52" using that by (auto split: if_splits)
  have half: "\<bar>real r0 * 2 powi q0 - v\<bar> \<le> 2 powi q0 / 2" using pre(3) by simp
  have down: "(2::real) powi (q0 - 1) = 2 powi q0 / 2" by (simp add: power_int_diff)
  show "\<bar>real r * 2 powi q - v\<bar> \<le> max (v / 2 ^ 53) (2 powi (- 1075))"
  proof (cases "q0 = - 1074")
    case True
    then have "q0 - 1 = - 1075" by simp
    with down have "(2::real) powi q0 / 2 = 2 powi (- 1075)" by (simp only:)
    with half have "\<bar>real r0 * 2 powi q0 - v\<bar> \<le> 2 powi (- 1075)" by (simp only:)
    then show ?thesis unfolding same by (rule max.coboundedI2)
  next
    case False
    with pre(4) have "2 powi q0 * 2 ^ 52 \<le> v" by simp
    then have "2 powi q0 / 2 \<le> v / 2 ^ 53" by (simp add: field_simps)
    with half have "\<bar>real r0 * 2 powi q0 - v\<bar> \<le> v / 2 ^ 53" by (rule order_trans)
    then show ?thesis unfolding same by (rule max.coboundedI1)
  qed
  show "q \<le> 971" if small: "v \<le> (2 ^ 53 - 1) * 2 ^ 971"
  proof (rule ccontr)
    assume "\<not> q \<le> 971"
    then have big: "971 < q" by simp
    define P where "P = (2::real) powi 971"
    have P: "0 < P" "(2::real) ^ 971 = P" "(2::real) powi 972 = 2 * P"
      by (simp_all add: P_def)
    from small have small': "v \<le> (2 ^ 53 - 1) * P" by (simp only: P)
    show False
    proof (cases "r0 = 2 ^ 53")
      case True
      with rq big have "971 \<le> q0" by simp
      then have "(2::real) powi 971 \<le> 2 powi q0" by (intro power_int_increasing) simp_all
      then have "P \<le> 2 powi q0" by (simp only: P_def)
      moreover from True have "real r0 = 2 ^ 53" by simp
      with half have "\<bar>2 ^ 53 * 2 powi q0 - v\<bar> \<le> 2 powi q0 / 2" by (simp only:)
      then have "2 ^ 53 * 2 powi q0 - 2 powi q0 / 2 \<le> v" by linarith
      ultimately show False using small' P(1) by simp
    next
      case False
      with rq big have b: "972 \<le> q0" by simp
      then have "(2::real) powi 972 \<le> 2 powi q0" by (intro power_int_increasing) simp_all
      then have "2 * P \<le> 2 powi q0" by (simp only: P)
      moreover from b pre(4) have "2 powi q0 * 2 ^ 52 \<le> v" by simp
      ultimately show False using small' P(1) by simp
    qed
  qed
qed

text \<open>Encoding a significand and an exponent as \<open>round_sig\<close> returns them, and reading
  them back.\<close>

lemma encode_finite:
  assumes "r < 2 ^ 53" and "- 1074 \<le> q" and "q \<le> 971" and "r < 2 ^ 52 \<Longrightarrow> q = - 1074"
  shows "is_finite (encode s r q)" and "sign_of (encode s r q) = s"
    and "mant_of (encode s r q) = r" and "expn_of (encode s r q) = q"
proof -
  have "is_finite (encode s r q) \<and> sign_of (encode s r q) = s \<and>
        mant_of (encode s r q) = r \<and> expn_of (encode s r q) = q"
  proof (cases "r < 2 ^ 52")
    case True
    then have e: "encode s r q' = pack s 0 r" for q' by (simp add: encode_def)
    from True have f: "(0::nat) < 2048" "r < 2 ^ 52" by simp_all
    note pf = pack_fields [OF f, of s]
    from pf assms(4) [OF True] show ?thesis
      by (simp add: e is_finite_def mant_of_def expn_of_def)
  next
    case False
    with assms(3) have e: "encode s r q = pack s (nat (q + 1075)) (r - 2 ^ 52)"
      by (simp add: encode_def)
    from assms False have f: "nat (q + 1075) < 2048" "r - 2 ^ 52 < 2 ^ 52" by simp_all
    note pf = pack_fields [OF f, of s]
    from assms(2) have nz: "nat (q + 1075) \<noteq> 0" by simp
    from pf nz False assms(2,3) show ?thesis
      by (simp add: e is_finite_def mant_of_def expn_of_def)
  qed
  then show "is_finite (encode s r q)" and "sign_of (encode s r q) = s"
    and "mant_of (encode s r q) = r" and "expn_of (encode s r q) = q"
    by simp_all
qed

lemma encode_overflow:
  assumes "2 ^ 52 \<le> r" and "971 < q"
  shows "\<not> is_finite (encode s r q)"
proof -
  from assms have "encode s r q = pack s 2047 0" by (simp add: encode_def)
  with pack_fields(2) [of 2047 0 s] show ?thesis by (simp add: is_finite_def)
qed

lemma rne_zero: "rne 0 k = 0"
  by (simp add: rne_def)

lemma round_pack_zero:
  "is_finite (round_pack s 0 e)" "mant_of (round_pack s 0 e) = 0"
proof -
  have "round_pack s 0 e = pack s 0 0"
    by (simp add: round_pack_def round_sig_def encode_def Let_def rne_zero)
  with pack_fields [of 0 0 s] show "is_finite (round_pack s 0 e)" "mant_of (round_pack s 0 e) = 0"
    by (simp_all add: is_finite_def mant_of_def)
qed

lemma round_pack_accuracy:
  fixes m :: nat and e :: int
  defines "v \<equiv> real m * 2 powi e"
  shows "is_finite (round_pack s m e) \<Longrightarrow>
           \<bar>valof (round_pack s m e) - (if s then - 1 else 1) * v\<bar>
             \<le> max (v / 2 ^ 53) (2 powi (- 1075))"
    and "v \<le> (2 ^ 53 - 1) * 2 ^ 971 \<Longrightarrow> is_finite (round_pack s m e)"
proof -
  have pos: "(0::real) \<le> max (v / 2 ^ 53) (2 powi (- 1075))"
    by (rule max.coboundedI2) simp
  show "\<bar>valof (round_pack s m e) - (if s then - 1 else 1) * v\<bar>
             \<le> max (v / 2 ^ 53) (2 powi (- 1075))" if fin: "is_finite (round_pack s m e)"
  proof (cases "m = 0")
    case True
    with round_pack_zero [of s e] pos show ?thesis by (simp add: valof_def v_def)
  next
    case False
    then have m: "0 < m" by simp
    obtain r q where rs: "round_sig m e = (r, q)" by (cases "round_sig m e")
    note p = round_sig_props [OF m rs, folded v_def]
    from rs have rp: "round_pack s m e = encode s r q" by (simp add: round_pack_def)
    have "q \<le> 971"
    proof (rule ccontr)
      assume "\<not> q \<le> 971"
      then have big: "971 < q" by simp
      with p(3) have "2 ^ 52 \<le> r" by (cases "r < 2 ^ 52") auto
      from encode_overflow [OF this big, of s] fin rp show False by simp
    qed
    note ef = encode_finite [OF p(1) p(2) this p(3), of s]
    from ef have "valof (round_pack s m e) = (if s then - 1 else 1) * (real r * 2 powi q)"
      by (simp add: rp valof_def)
    then have "\<bar>valof (round_pack s m e) - (if s then - 1 else 1) * v\<bar> = \<bar>real r * 2 powi q - v\<bar>"
      by (simp add: abs_minus_commute)
    with p(4) show ?thesis by simp
  qed
  show "is_finite (round_pack s m e)" if small: "v \<le> (2 ^ 53 - 1) * 2 ^ 971"
  proof (cases "m = 0")
    case True
    with round_pack_zero [of s e] show ?thesis by simp
  next
    case False
    then have m: "0 < m" by simp
    obtain r q where rs: "round_sig m e = (r, q)" by (cases "round_sig m e")
    note p = round_sig_props [OF m rs, folded v_def]
    from rs have rp: "round_pack s m e = encode s r q" by (simp add: round_pack_def)
    from encode_finite(1) [OF p(1) p(2) p(5) [OF small] p(3), of s] rp show ?thesis by simp
  qed
qed

text \<open>Comparison of finite patterns is comparison of their values.\<close>

lemma finite_not_special: "is_finite x \<Longrightarrow> \<not> is_nan x \<and> \<not> is_inf x"
  by (simp add: is_finite_def is_nan_def is_inf_def)

lemma expn_of_lower: "- 1074 \<le> expn_of w"
  by (simp add: expn_of_def)

lemma ord_key_valof:
  assumes "is_finite w"
  shows "real_of_int (ord_key w) = valof w * 2 powi 1074"
proof -
  define c where "c = (2::real) powi 1074"
  from expn_of_lower [of w] have "expn_of w + 1074 = int (nat (expn_of w + 1074))" by simp
  then have "(2::real) powi (expn_of w + 1074) = 2 ^ nat (expn_of w + 1074)"
    by (metis power_int_of_nat)
  then have "(2::real) ^ nat (expn_of w + 1074) = 2 powi expn_of w * c"
    by (simp add: power_int_add c_def)
  moreover from assms have "expo_of w \<noteq> 2047" by (simp add: is_finite_def)
  ultimately have "real_of_int (ord_key w) = valof w * c"
    by (simp add: ord_key_def valof_def)
  then show ?thesis by (simp only: c_def)
qed

lemma dle_valof:
  assumes "is_finite x" and "is_finite y"
  shows "dle x y \<longleftrightarrow> valof x \<le> valof y" and "dlt x y \<longleftrightarrow> valof x < valof y"
proof -
  define c where "c = (2::real) powi 1074"
  have c: "0 < c" by (simp add: c_def)
  note k = ord_key_valof [OF assms(1), folded c_def] ord_key_valof [OF assms(2), folded c_def]
  have "ord_key x \<le> ord_key y \<longleftrightarrow> real_of_int (ord_key x) \<le> real_of_int (ord_key y)"
    by (simp only: of_int_le_iff)
  also have "\<dots> \<longleftrightarrow> valof x \<le> valof y" using c by (simp only: k) simp
  finally show "dle x y \<longleftrightarrow> valof x \<le> valof y"
    using assms by (simp add: dle_def finite_not_special)
  have "ord_key x < ord_key y \<longleftrightarrow> real_of_int (ord_key x) < real_of_int (ord_key y)"
    by (simp only: of_int_less_iff)
  also have "\<dots> \<longleftrightarrow> valof x < valof y" using c by (simp only: k) simp
  finally show "dlt x y \<longleftrightarrow> valof x < valof y"
    using assms by (simp add: dlt_def finite_not_special)
qed

lemma valof_consts: "valof d0 = 0" "valof d1_50 = 1.5" "valof d3_00 = 3" "valof d5 = 5"
  "is_finite d0" "is_finite d1_50" "is_finite d3_00" "is_finite d5"
  by (simp_all add: valof_def dbl_eval)

lemma dgt_zero:
  assumes "dgt d d0"
  shows "\<not> is_nan d" and "\<not> sign_of d" and "is_finite d \<Longrightarrow> 0 < valof d"
proof -
  from assms show "\<not> is_nan d" by (simp add: dgt_def dlt_def)
  have "ord_key d0 = 0" by (simp add: dbl_eval)
  with assms have pos: "0 < ord_key d" by (simp add: dgt_def dlt_def)
  show "\<not> sign_of d"
  proof
    assume "sign_of d"
    then have "ord_key d \<le> 0" by (simp add: ord_key_def)
    with pos show False by simp
  qed
  show "0 < valof d" if "is_finite d"
    using assms dle_valof(2) [OF valof_consts(5) that] by (simp add: dgt_def valof_consts)
qed

lemma valof_mult:
  "valof x * valof y =
     (if sign_of x \<noteq> sign_of y then - 1 else 1) *
     (real (mant_of x * mant_of y) * 2 powi (expn_of x + expn_of y))"
  by (simp add: valof_def power_int_add)

lemma dmul_accuracy:
  assumes "is_finite x" and "is_finite y"
  shows "is_finite (dmul x y) \<Longrightarrow>
           \<bar>valof (dmul x y) - valof x * valof y\<bar>
             \<le> max (\<bar>valof x * valof y\<bar> / 2 ^ 53) (2 powi (- 1075))"
    and "\<bar>valof x * valof y\<bar> \<le> (2 ^ 53 - 1) * 2 ^ 971 \<Longrightarrow> is_finite (dmul x y)"
proof -
  define s where "s = (sign_of x \<noteq> sign_of y)"
  define m where "m = mant_of x * mant_of y"
  define e where "e = expn_of x + expn_of y"
  from assms have d: "dmul x y = round_pack s m e"
    by (simp add: dmul_def finite_not_special s_def m_def e_def)
  have v: "valof x * valof y = (if s then - 1 else 1) * (real m * 2 powi e)"
    unfolding s_def m_def e_def by (rule valof_mult)
  have a: "\<bar>valof x * valof y\<bar> = real m * 2 powi e"
    by (simp add: v abs_mult)
  show "\<bar>valof (dmul x y) - valof x * valof y\<bar>
             \<le> max (\<bar>valof x * valof y\<bar> / 2 ^ 53) (2 powi (- 1075))" if fin: "is_finite (dmul x y)"
  proof -
    from fin have fr: "is_finite (round_pack s m e)" by (simp only: d)
    show ?thesis unfolding a unfolding d v by (rule round_pack_accuracy(1) [OF fr])
  qed
  show "is_finite (dmul x y)" if small: "\<bar>valof x * valof y\<bar> \<le> (2 ^ 53 - 1) * 2 ^ 971"
  proof -
    from small have "real m * 2 powi e \<le> (2 ^ 53 - 1) * 2 ^ 971" by (simp only: a)
    from round_pack_accuracy(2) [OF this] show ?thesis by (simp only: d)
  qed
qed

text \<open>
  What the machine computes: \<open>0.1 * 1.5\<close> is \<open>0.15000000000000002\<close> (the exact product
  lies halfway between two doubles and goes to the even one), the least subnormal
  number times \<open>1.5\<close> is twice itself, and the greatest finite number times \<open>1.5\<close> is
  infinity.
\<close>

lemma dmul_examples:
  "dmul 0x3FB999999999999A d1_50 = 0x3FC3333333333334"
  "dmul 0x0000000000000001 d1_50 = 0x0000000000000002"
  "dmul 0x7FEFFFFFFFFFFFFF d1_50 = 0x7FF0000000000000"
  "dmul 0x7FF0000000000000 d3_00 = 0x7FF0000000000000"
  by (simp_all add: dmul_eval dbl_eval)

subsection \<open>Construction of rides\<close>

text \<open>
  C2: for every id, pickup, dropoff and distance, the constructor of \<open>Ride\<close> (reached
  through \<open>StandardRide\<close> or \<open>PremiumRide\<close>, the dynamic type \<open>k\<close>) throws
  \<open>std::invalid_argument\<close> if and only if the distance is \<open>\<le> 0\<close>; when the distance is
  \<open>> 0\<close> it returns a ride whose fare is \<open>0.0\<close>. On a finite distance the two
  comparisons are those of its value.
\<close>

theorem Ride_construction:
  "((\<exists>msg. Ride k i p q d = Inl (invalid_argument msg)) \<longleftrightarrow> dle d d0) \<and>
   (dgt d d0 \<longrightarrow> (\<exists>r. Ride k i p q d = Inr r \<and> fare r = d0 \<and> valof (fare r) = 0)) \<and>
   (is_finite d \<longrightarrow> (dle d d0 \<longleftrightarrow> valof d \<le> 0) \<and> (dgt d d0 \<longleftrightarrow> 0 < valof d))"
proof -
  have "(\<exists>msg. Ride k i p q d = Inl (invalid_argument msg)) \<longleftrightarrow> dle d d0"
    by (simp add: Ride_def)
  moreover have "dgt d d0 \<longrightarrow> (\<exists>r. Ride k i p q d = Inr r \<and> fare r = d0 \<and> valof (fare r) = 0)"
    by (simp add: Ride_def dgt_not_dle valof_consts)
  moreover have "(dle d d0 \<longleftrightarrow> valof d \<le> 0) \<and> (dgt d d0 \<longleftrightarrow> 0 < valof d)" if "is_finite d"
    using dle_valof [OF that valof_consts(5)] dle_valof [OF valof_consts(5) that]
    by (simp add: dgt_def valof_consts)
  ultimately show ?thesis by blast
qed

text \<open>At the distances \<open>5.0\<close> and \<open>-5.0\<close> of \<open>main\<close>.\<close>

theorem Ride_construction_witness:
  "dgt 0x4014000000000000 d0 \<and> is_finite 0x4014000000000000 \<and>
   0 < valof 0x4014000000000000 \<and>
   (\<exists>r. Ride Standard 1 ''Home'' ''Work'' 0x4014000000000000 = Inr r \<and> fare r = d0) \<and>
   dle 0xC014000000000000 d0 \<and> is_finite 0xC014000000000000 \<and>
   valof 0xC014000000000000 \<le> 0 \<and>
   (\<exists>msg. Ride Standard 9 ''Start'' ''End'' 0xC014000000000000 = Inl (invalid_argument msg))"
proof -
  note pos = Ride_construction [of Standard 1 "''Home''" "''Work''" "0x4014000000000000"]
  note neg = Ride_construction [of Standard 9 "''Start''" "''End''" "0xC014000000000000"]
  have a: "dgt 0x4014000000000000 d0" and fa: "is_finite 0x4014000000000000"
    by (simp_all add: dbl_eval)
  have b: "dle 0xC014000000000000 d0" and fb: "is_finite 0xC014000000000000"
    by (simp_all add: dbl_eval)
  from mp [OF pos [THEN conjunct2, THEN conjunct2] fa] a
  have va: "0 < valof 0x4014000000000000" by simp
  from mp [OF neg [THEN conjunct2, THEN conjunct2] fb] b
  have vb: "valof 0xC014000000000000 \<le> 0" by simp
  from mp [OF pos [THEN conjunct2, THEN conjunct1] a]
  have ra: "\<exists>r. Ride Standard 1 ''Home'' ''Work'' 0x4014000000000000 = Inr r \<and> fare r = d0"
    by blast
  from neg [THEN conjunct1] b
  have rb: "\<exists>msg. Ride Standard 9 ''Start'' ''End'' 0xC014000000000000 =
      Inl (invalid_argument msg)" by simp
  from a fa va ra b fb vb rb show ?thesis by (intro conjI)
qed

subsection \<open>Construction of drivers\<close>

text \<open>
  C3: for every rating \<open>r\<close>, the constructor of \<open>Driver\<close> returns a driver if
  \<open>0 \<le> r \<le> 5\<close>, and throws \<open>std::invalid_argument\<close> if \<open>r < 0\<close> or \<open>r > 5\<close>. On a finite
  rating the comparisons are those of its value.
\<close>

theorem Driver_construction:
  "(dle d0 r \<and> dle r d5 \<longrightarrow> (\<exists>d. Driver i n r = Inr d \<and> rating d = r)) \<and>
   (dlt r d0 \<or> dgt r d5 \<longrightarrow> (\<exists>msg. Driver i n r = Inl (invalid_argument msg))) \<and>
   (is_finite r \<longrightarrow>
      (dle d0 r \<and> dle r d5 \<longleftrightarrow> 0 \<le> valof r \<and> valof r \<le> 5) \<and>
      (dlt r d0 \<or> dgt r d5 \<longleftrightarrow> valof r < 0 \<or> 5 < valof r))"
proof -
  have "dle d0 r \<and> dle r d5 \<longrightarrow> (\<exists>d. Driver i n r = Inr d \<and> rating d = r)"
    by (auto simp: Driver_def dgt_def dle_not_dlt)
  moreover have "dlt r d0 \<or> dgt r d5 \<longrightarrow> (\<exists>msg. Driver i n r = Inl (invalid_argument msg))"
    by (auto simp: Driver_def)
  moreover have "(dle d0 r \<and> dle r d5 \<longleftrightarrow> 0 \<le> valof r \<and> valof r \<le> 5) \<and>
      (dlt r d0 \<or> dgt r d5 \<longleftrightarrow> valof r < 0 \<or> 5 < valof r)" if "is_finite r"
    using dle_valof [OF that valof_consts(5)] dle_valof [OF valof_consts(5) that]
      dle_valof [OF that valof_consts(8)] dle_valof [OF valof_consts(8) that]
    by (simp add: dgt_def valof_consts)
  ultimately show ?thesis by blast
qed

text \<open>At the ratings \<open>4.8\<close> and \<open>6.0\<close> of \<open>main\<close>.\<close>

theorem Driver_construction_witness:
  "dle d0 0x4013333333333333 \<and> dle 0x4013333333333333 d5 \<and>
   is_finite 0x4013333333333333 \<and>
   0 \<le> valof 0x4013333333333333 \<and> valof 0x4013333333333333 \<le> 5 \<and>
   (\<exists>d. Driver 101 ''John Doe'' 0x4013333333333333 = Inr d) \<and>
   dgt 0x4018000000000000 d5 \<and>
   (\<exists>msg. Driver 102 ''Invalid'' 0x4018000000000000 = Inl (invalid_argument msg))"
proof -
  note ok = Driver_construction [of "0x4013333333333333" 101 "''John Doe''"]
  note bad = Driver_construction [of "0x4018000000000000" 102 "''Invalid''"]
  have a: "dle d0 0x4013333333333333 \<and> dle 0x4013333333333333 d5"
    and fa: "is_finite 0x4013333333333333"
    by (simp_all add: dbl_eval)
  have b: "dgt 0x4018000000000000 d5" by (simp add: dbl_eval)
  from mp [OF ok [THEN conjunct2, THEN conjunct2] fa] a
  have va: "0 \<le> valof 0x4013333333333333 \<and> valof 0x4013333333333333 \<le> 5" by simp
  from mp [OF ok [THEN conjunct1] a]
  have ra: "\<exists>d. Driver 101 ''John Doe'' 0x4013333333333333 = Inr d" by blast
  from bad [THEN conjunct2, THEN conjunct1] b
  have rb: "\<exists>msg. Driver 102 ''Invalid'' 0x4018000000000000 = Inl (invalid_argument msg)"
    by simp
  from a fa va ra b rb show ?thesis by simp
qed

subsection \<open>The fare\<close>

text \<open>The product of a distance \<open>> 0\<close> with a finite rate \<open>c \<ge> 0\<close>.\<close>

lemma rate_times_distance:
  assumes d: "dgt d d0" and c: "is_finite c" and cpos: "0 \<le> valof c"
  shows "\<exists>r. Ride k i p q d = Inr r \<and> distance r = d \<and> kind r = k \<and>
     (is_finite d \<and> valof c * valof d \<le> (2 ^ 53 - 1) * 2 ^ 971 \<longrightarrow>
        is_finite (dmul d c) \<and>
        \<bar>valof (dmul d c) - valof c * valof d\<bar>
          \<le> max (valof c * valof d / 2 ^ 53) (2 powi (- 1075)))"
proof -
  from d have r: "Ride k i p q d = Inr \<lparr>kind = k, rideID = i, pickupLocation = p,
      dropoffLocation = q, distance = d, fare = d0\<rparr>"
    by (simp add: Ride_def dgt_not_dle)
  have "is_finite (dmul d c) \<and>
        \<bar>valof (dmul d c) - valof c * valof d\<bar>
          \<le> max (valof c * valof d / 2 ^ 53) (2 powi (- 1075))"
    if fin: "is_finite d" and small: "valof c * valof d \<le> (2 ^ 53 - 1) * 2 ^ 971"
  proof -
    from dgt_zero(3) [OF d fin] cpos have a: "\<bar>valof d * valof c\<bar> = valof c * valof d"
      by (simp add: abs_mult mult.commute)
    from small have "\<bar>valof d * valof c\<bar> \<le> (2 ^ 53 - 1) * 2 ^ 971" by (simp only: a)
    from dmul_accuracy(2) [OF fin c this] have f: "is_finite (dmul d c)" .
    from dmul_accuracy(1) [OF fin c f] have
      "\<bar>valof (dmul d c) - valof d * valof c\<bar>
          \<le> max (valof c * valof d / 2 ^ 53) (2 powi (- 1075))" by (simp only: a)
    then have "\<bar>valof (dmul d c) - valof c * valof d\<bar>
          \<le> max (valof c * valof d / 2 ^ 53) (2 powi (- 1075))"
      by (simp only: mult.commute [of "valof d" "valof c"])
    with f show ?thesis ..
  qed
  with r show ?thesis by simp
qed

text \<open>
  C1: for every distance \<open>d > 0\<close>, a \<open>StandardRide\<close> constructed with distance \<open>d\<close> has,
  after \<open>calculateFare\<close>, the fare \<open>d * 1.50\<close>, and a \<open>PremiumRide\<close> the fare \<open>d * 3.00\<close>.
  The product is that of \<open>double\<close>: whenever \<open>d\<close> is finite and the exact product does not
  exceed the greatest finite \<open>double\<close>, \<open>(2 ^ 53 - 1) * 2 ^ 971\<close>, the fare is finite and
  differs from the exact product \<open>1.5 * d\<close> (or \<open>3 * d\<close>) by at most the \<open>2 ^ 53\<close>-th part
  of it, or by \<open>2 ^ - 1075\<close> for a product in the subnormal range.
\<close>

theorem fare_is_rate_times_distance:
  assumes "dgt d d0"
  shows "(\<exists>r. StandardRide i p q d = Inr r \<and>
            fare (calculateFare r) = dmul d d1_50 \<and>
            (is_finite d \<and> 1.5 * valof d \<le> (2 ^ 53 - 1) * 2 ^ 971 \<longrightarrow>
               is_finite (fare (calculateFare r)) \<and>
               \<bar>valof (fare (calculateFare r)) - 1.5 * valof d\<bar>
                 \<le> max (1.5 * valof d / 2 ^ 53) (2 powi (- 1075)))) \<and>
         (\<exists>r. PremiumRide i p q d = Inr r \<and>
            fare (calculateFare r) = dmul d d3_00 \<and>
            (is_finite d \<and> 3 * valof d \<le> (2 ^ 53 - 1) * 2 ^ 971 \<longrightarrow>
               is_finite (fare (calculateFare r)) \<and>
               \<bar>valof (fare (calculateFare r)) - 3 * valof d\<bar>
                 \<le> max (3 * valof d / 2 ^ 53) (2 powi (- 1075))))"
proof -
  have s: "0 \<le> valof d1_50" and t: "0 \<le> valof d3_00" by (simp_all add: valof_consts)
  from rate_times_distance [OF assms valof_consts(6) s, of Standard i p q]
  obtain r where r: "Ride Standard i p q d = Inr r" "distance r = d" "kind r = Standard"
     "is_finite d \<and> valof d1_50 * valof d \<le> (2 ^ 53 - 1) * 2 ^ 971 \<longrightarrow>
        is_finite (dmul d d1_50) \<and>
        \<bar>valof (dmul d d1_50) - valof d1_50 * valof d\<bar>
          \<le> max (valof d1_50 * valof d / 2 ^ 53) (2 powi (- 1075))" by blast
  from r(2,3) have fr: "fare (calculateFare r) = dmul d d1_50" by (simp add: calculateFare_def)
  from rate_times_distance [OF assms valof_consts(7) t, of Premium i p q]
  obtain r' where r': "Ride Premium i p q d = Inr r'" "distance r' = d" "kind r' = Premium"
     "is_finite d \<and> valof d3_00 * valof d \<le> (2 ^ 53 - 1) * 2 ^ 971 \<longrightarrow>
        is_finite (dmul d d3_00) \<and>
        \<bar>valof (dmul d d3_00) - valof d3_00 * valof d\<bar>
          \<le> max (valof d3_00 * valof d / 2 ^ 53) (2 powi (- 1075))" by blast
  from r'(2,3) have fr': "fare (calculateFare r') = dmul d d3_00" by (simp add: calculateFare_def)
  have "\<exists>r. StandardRide i p q d = Inr r \<and>
            fare (calculateFare r) = dmul d d1_50 \<and>
            (is_finite d \<and> 1.5 * valof d \<le> (2 ^ 53 - 1) * 2 ^ 971 \<longrightarrow>
               is_finite (fare (calculateFare r)) \<and>
               \<bar>valof (fare (calculateFare r)) - 1.5 * valof d\<bar>
                 \<le> max (1.5 * valof d / 2 ^ 53) (2 powi (- 1075)))"
    using r(1) r(4) unfolding fr [symmetric] StandardRide_def valof_consts(2) by blast
  moreover have "\<exists>r. PremiumRide i p q d = Inr r \<and>
            fare (calculateFare r) = dmul d d3_00 \<and>
            (is_finite d \<and> 3 * valof d \<le> (2 ^ 53 - 1) * 2 ^ 971 \<longrightarrow>
               is_finite (fare (calculateFare r)) \<and>
               \<bar>valof (fare (calculateFare r)) - 3 * valof d\<bar>
                 \<le> max (3 * valof d / 2 ^ 53) (2 powi (- 1075)))"
    using r'(1) r'(4) unfolding fr' [symmetric] PremiumRide_def valof_consts(3) by blast
  ultimately show ?thesis ..
qed

text \<open>The two rides of the first scenario of \<open>main\<close>: \<open>5.0\<close> miles cost \<open>7.50\<close>,
  and \<open>15.0\<close> miles cost \<open>45.00\<close> at the premium rate.\<close>

theorem fare_is_rate_times_distance_witness:
  "dgt 0x4014000000000000 d0 \<and> is_finite 0x4014000000000000 \<and>
   valof 0x4014000000000000 = 5 \<and>
   1.5 * valof 0x4014000000000000 \<le> (2 ^ 53 - 1) * 2 ^ 971 \<and>
   (\<exists>r. StandardRide 1 ''Home'' ''Work'' 0x4014000000000000 = Inr r \<and>
      fare (calculateFare r) = 0x401E000000000000 \<and>
      is_finite (fare (calculateFare r)) \<and> valof (fare (calculateFare r)) = 7.5) \<and>
   dgt 0x402E000000000000 d0 \<and> is_finite 0x402E000000000000 \<and>
   valof 0x402E000000000000 = 15 \<and>
   3 * valof 0x402E000000000000 \<le> (2 ^ 53 - 1) * 2 ^ 971 \<and>
   (\<exists>r. PremiumRide 2 ''Home'' ''Airport'' 0x402E000000000000 = Inr r \<and>
      fare (calculateFare r) = 0x4046800000000000 \<and>
      is_finite (fare (calculateFare r)) \<and> valof (fare (calculateFare r)) = 45)"
proof -
  have a: "dgt 0x4014000000000000 d0" "is_finite 0x4014000000000000"
    "valof 0x4014000000000000 = 5"
    by (simp_all add: valof_def dbl_eval)
  have b: "dgt 0x402E000000000000 d0" "is_finite 0x402E000000000000"
    "valof 0x402E000000000000 = 15"
    by (simp_all add: valof_def dbl_eval)
  have a': "1.5 * valof 0x4014000000000000 \<le> (2 ^ 53 - 1) * 2 ^ 971"
    and b': "3 * valof 0x402E000000000000 \<le> (2 ^ 53 - 1) * 2 ^ 971"
    by (simp_all add: a b)
  have m: "dmul 0x4014000000000000 d1_50 = 0x401E000000000000"
    "dmul 0x402E000000000000 d3_00 = 0x4046800000000000"
    by (simp_all add: dmul_eval dbl_eval)
  have v: "valof 0x401E000000000000 = 7.5" "valof 0x4046800000000000 = 45"
    by (simp_all add: valof_def dbl_eval)
  from fare_is_rate_times_distance [OF a(1), of 1 "''Home''" "''Work''"] a(2) a'
  obtain r where "StandardRide 1 ''Home'' ''Work'' 0x4014000000000000 = Inr r"
    "fare (calculateFare r) = dmul 0x4014000000000000 d1_50" "is_finite (fare (calculateFare r))"
    by blast
  with m v have s: "\<exists>r. StandardRide 1 ''Home'' ''Work'' 0x4014000000000000 = Inr r \<and>
      fare (calculateFare r) = 0x401E000000000000 \<and>
      is_finite (fare (calculateFare r)) \<and> valof (fare (calculateFare r)) = 7.5"
    by simp
  from fare_is_rate_times_distance [OF b(1), of 2 "''Home''" "''Airport''"] b(2) b'
  obtain r where "PremiumRide 2 ''Home'' ''Airport'' 0x402E000000000000 = Inr r"
    "fare (calculateFare r) = dmul 0x402E000000000000 d3_00" "is_finite (fare (calculateFare r))"
    by blast
  with m v have p: "\<exists>r. PremiumRide 2 ''Home'' ''Airport'' 0x402E000000000000 = Inr r \<and>
      fare (calculateFare r) = 0x4046800000000000 \<and>
      is_finite (fare (calculateFare r)) \<and> valof (fare (calculateFare r)) = 45"
    by simp
  from a a' s b b' p show ?thesis by (intro conjI)
qed

subsection \<open>Fare calculation\<close>

text \<open>
  C7: for every ride, Standard or Premium, calling \<open>calculateFare\<close> a second time leaves
  the ride, and so its fare, as the first call left it.
\<close>

theorem calculateFare_idem: "calculateFare (calculateFare r) = calculateFare r"
  by (cases "kind r") (simp_all add: calculateFare_def)

subsection \<open>The printed record of a ride\<close>

text \<open>
  C9: \<open>rideDetails\<close> appends to the stream the lines \<open>Ride ID: <id>\<close>, \<open>Pickup: <pickup>\<close>,
  \<open>Dropoff: <dropoff>\<close>, \<open>Distance: <distance> miles\<close> and
  \<open>Fare: $<fare> (<Variant> Ride)\<close>, the variant being \<open>Standard\<close> or \<open>Premium\<close> and the
  fare rendered in fixed notation with precision 2. (The distance is rendered with the
  settings the stream has when the call begins.)
\<close>

theorem rideDetails_shape:
  "buf (rideDetails fd r s) =
     buf s @ ''Ride ID: '' @ show_int (sint (rideID r)) @
     ''\<newline>Pickup: '' @ pickupLocation r @
     ''\<newline>Dropoff: '' @ dropoffLocation r @
     ''\<newline>Distance: '' @ fd (is_fixed s) (prec s) (distance r) @ '' miles'' @
     ''\<newline>Fare: $'' @ fd True 2 (fare r) @
     '' ('' @ (case kind r of Standard \<Rightarrow> ''Standard Ride'' | Premium \<Rightarrow> ''Premium Ride'') @ '')'' @
     ''\<newline>''"
  by (cases "kind r") (simp_all add: rideDetails_def Ride_rideDetails_def put_defs)


subsection \<open>Ride histories\<close>

text \<open>
  C4: for every driver and every rider, \<open>addRide\<close> and \<open>requestRide\<close> throw
  \<open>std::invalid_argument\<close> exactly when the pointer is null, and then leave the object
  (and so its history) as it was; with a pointer that is not null they do not throw, and
  the history is the old one with the pointer appended at the end.
\<close>

theorem null_ride_rejected:
  "((\<exists>msg. snd (addRide d p) = Some (invalid_argument msg)) \<longleftrightarrow> p = None) \<and>
   ((\<exists>msg. snd (requestRide r p) = Some (invalid_argument msg)) \<longleftrightarrow> p = None) \<and>
   (snd (addRide d p) \<noteq> None \<longrightarrow> fst (addRide d p) = d) \<and>
   (snd (requestRide r p) \<noteq> None \<longrightarrow> fst (requestRide r p) = r) \<and>
   (p \<noteq> None \<longrightarrow> snd (addRide d p) = None \<and>
      assignedRides (fst (addRide d p)) = assignedRides d @ [p]) \<and>
   (p \<noteq> None \<longrightarrow> snd (requestRide r p) = None \<and>
      requestedRides (fst (requestRide r p)) = requestedRides r @ [p])"
  by (simp add: addRide_def requestRide_def)

text \<open>A driver with one ride and a new rider, each given the null pointer and given a
  ride.\<close>

theorem null_ride_rejected_witness:
  "snd (addRide \<lparr>driverID = 101, driverName = ''John Doe'', rating = 0x4013333333333333,
                  assignedRides = [Some 0]\<rparr> None) \<noteq> None \<and>
   fst (addRide \<lparr>driverID = 101, driverName = ''John Doe'', rating = 0x4013333333333333,
                  assignedRides = [Some 0]\<rparr> None) =
     \<lparr>driverID = 101, driverName = ''John Doe'', rating = 0x4013333333333333,
      assignedRides = [Some 0]\<rparr> \<and>
   snd (requestRide (Rider 201 ''Alice'') None) \<noteq> None \<and>
   fst (requestRide (Rider 201 ''Alice'') None) = Rider 201 ''Alice'' \<and>
   assignedRides (fst (addRide \<lparr>driverID = 101, driverName = ''John Doe'',
      rating = 0x4013333333333333, assignedRides = [Some 0]\<rparr> (Some 1))) = [Some 0, Some 1] \<and>
   requestedRides (fst (requestRide (Rider 201 ''Alice'') (Some 4))) = [Some 4]"
proof -
  let ?D = "\<lparr>driverID = 101, driverName = ''John Doe'', rating = 0x4013333333333333,
             assignedRides = [Some (0::nat)]\<rparr>"
  let ?R = "Rider 201 ''Alice''"
  note at_null = null_ride_rejected [of ?D None ?R, THEN conjunct2, THEN conjunct2]
  note at_1 = null_ride_rejected [of ?D "Some 1" ?R, THEN conjunct2, THEN conjunct2,
      THEN conjunct2, THEN conjunct2, THEN conjunct1]
  note at_4 = null_ride_rejected [of ?D "Some 4" ?R, THEN conjunct2, THEN conjunct2,
      THEN conjunct2, THEN conjunct2, THEN conjunct2]
  have a: "snd (addRide ?D None) \<noteq> None" and b: "snd (requestRide ?R None) \<noteq> None"
    by (simp_all add: addRide_def requestRide_def)
  have c: "Some (1::nat) \<noteq> None" and d: "Some (4::nat) \<noteq> None" by simp_all
  have "fst (addRide ?D None) = ?D"
    by (rule mp [OF at_null [THEN conjunct1] a])
  moreover have "fst (requestRide ?R None) = ?R"
    by (rule mp [OF at_null [THEN conjunct2, THEN conjunct1] b])
  moreover have "assignedRides (fst (addRide ?D (Some 1))) = [Some 0, Some 1]"
    using mp [OF at_1 c] by simp
  moreover have "requestedRides (fst (requestRide ?R (Some 4))) = [Some 4]"
    using mp [OF at_4 d] by (simp add: Rider_def)
  ultimately show ?thesis using a b by simp
qed

subsection \<open>The count of completed rides\<close>

text \<open>A run of \<open>addRide\<close> calls appends the pointers that are not null, in order, and
  changes nothing else of the driver.\<close>

lemma addRides_history:
  "addRides d ps = (d', k) \<Longrightarrow>
     assignedRides d' = assignedRides d @ filter (\<lambda>p. p \<noteq> None) ps \<and>
     k = length (filter (\<lambda>p. p \<noteq> None) ps) \<and>
     driverID d' = driverID d \<and> driverName d' = driverName d \<and> rating d' = rating d"
proof (induction ps arbitrary: d d' k)
  case Nil
  then show ?case by simp
next
  case (Cons p ps)
  show ?case
  proof (cases p)
    case None
    with Cons.prems have "addRides d ps = (d', k)" by (simp add: addRide_def)
    from Cons.IH [OF this] None show ?thesis by simp
  next
    case (Some a)
    let ?d1 = "d\<lparr>assignedRides := assignedRides d @ [p]\<rparr>"
    obtain d2 m where rec: "addRides ?d1 ps = (d2, m)" by (cases "addRides ?d1 ps")
    with Cons.prems Some have eq: "d' = d2" "k = Suc m" by (simp_all add: addRide_def)
    from Cons.IH [OF rec] Some eq show ?thesis by simp
  qed
qed

lemma getDriverInfo_text:
  "buf (getDriverInfo fd d s) =
     buf s @ ''Driver ID: '' @ show_int (sint (driverID d)) @
     ''\<newline>Name: '' @ driverName d @
     ''\<newline>Rating: '' @ fd True 2 (rating d) @
     ''\<newline>Completed Rides: '' @ show_nat (length (assignedRides d)) @ ''\<newline>''"
  by (simp add: getDriverInfo_def put_defs)

text \<open>
  C5: for a driver as its constructor returns it and every sequence \<open>ps\<close> of pointers
  passed to \<open>addRide\<close> one after the other, the number that \<open>getDriverInfo\<close> prints after
  \<open>Completed Rides:\<close> is the number \<open>k\<close> of calls that returned normally. That number is
  the number of pointers in \<open>ps\<close> that are not null: a pointer that occurs several
  times counts each time, and a null pointer, which \<open>addRide\<close> rejects, does not count.
\<close>

theorem completed_rides_count:
  assumes "Driver i n r = Inr d" and "addRides d ps = (d', k)"
  shows "k = length (filter (\<lambda>p. p \<noteq> None) ps) \<and>
     buf (getDriverInfo fd d' s) =
       buf s @ ''Driver ID: '' @ show_int (sint i) @
       ''\<newline>Name: '' @ n @
       ''\<newline>Rating: '' @ fd True 2 r @
       ''\<newline>Completed Rides: '' @ show_nat k @ ''\<newline>''"
proof -
  from assms(1) have d: "d = \<lparr>driverID = i, driverName = n, rating = r, assignedRides = []\<rparr>"
    by (auto simp: Driver_def split: if_splits)
  from addRides_history [OF assms(2)] d show ?thesis
    by (simp add: getDriverInfo_text)
qed

text \<open>The driver of \<open>main\<close>, given the ride at address 0 twice, a null pointer and
  the ride at address 1.\<close>

theorem completed_rides_count_witness:
  "Driver 101 ''John Doe'' 0x4013333333333333 =
     Inr \<lparr>driverID = 101, driverName = ''John Doe'', rating = 0x4013333333333333,
          assignedRides = []\<rparr> \<and>
   addRides \<lparr>driverID = 101, driverName = ''John Doe'', rating = 0x4013333333333333,
             assignedRides = []\<rparr> [Some 0, None, Some 0, Some 1] =
     (\<lparr>driverID = 101, driverName = ''John Doe'', rating = 0x4013333333333333,
       assignedRides = [Some 0, Some 0, Some 1]\<rparr>, 3) \<and>
   buf (getDriverInfo (\<lambda>fx pr x. ''4.80'')
          \<lparr>driverID = 101, driverName = ''John Doe'', rating = 0x4013333333333333,
           assignedRides = [Some 0, Some 0, Some 1]\<rparr> cout0) =
     ''Driver ID: 101\<newline>Name: John Doe\<newline>Rating: 4.80\<newline>Completed Rides: 3\<newline>''"
proof -
  let ?D = "\<lparr>driverID = 101, driverName = ''John Doe'', rating = 0x4013333333333333,
             assignedRides = []\<rparr>"
  let ?D' = "\<lparr>driverID = 101, driverName = ''John Doe'', rating = 0x4013333333333333,
             assignedRides = [Some (0::nat), Some 0, Some 1]\<rparr>"
  have a: "Driver 101 ''John Doe'' 0x4013333333333333 = Inr ?D"
    by (simp add: Driver_def dbl_eval)
  have b: "addRides ?D [Some 0, None, Some 0, Some 1] = (?D', 3)"
    by (simp add: addRide_def)
  have c: "show_int (sint (101 :: 32 word)) = ''101''" "show_nat 3 = ''3''"
    by (simp_all add: show_int_def show_nat.simps digit_def)
  from completed_rides_count [OF a b, of "\<lambda>fx pr x. ''4.80''" cout0] c
  have "buf (getDriverInfo (\<lambda>fx pr x. ''4.80'') ?D' cout0) =
     ''Driver ID: 101\<newline>Name: John Doe\<newline>Rating: 4.80\<newline>Completed Rides: 3\<newline>''"
    by (simp add: cout0_def)
  with a b show ?thesis by simp
qed

subsection \<open>The ride history of a rider\<close>

text \<open>\<open>rideDetails\<close> appends the description of the ride under the settings of the
  stream, and leaves the stream fixed with precision 2.\<close>

lemma rideDetails_describe:
  "buf (rideDetails fd x s) = buf s @ describe fd (is_fixed s) (prec s) x"
  "is_fixed (rideDetails fd x s) = True"
  "prec (rideDetails fd x s) = 2"
  by (cases "kind x"; simp add: describe_def rideDetails_def Ride_rideDetails_def put_defs)+

lemma viewRides_loop_fixed:
  "is_fixed s \<Longrightarrow> prec s = 2 \<Longrightarrow>
   \<exists>s'. viewRides_loop fd h (map Some as) s = Some s' \<and>
        buf s' = buf s @ concat (map (\<lambda>a. describe fd True 2 (h a)) as)"
proof (induction as arbitrary: s)
  case Nil
  then show ?case by simp
next
  case (Cons a as)
  let ?s1 = "rideDetails fd (h a) s"
  have "is_fixed ?s1" "prec ?s1 = 2" by (simp_all add: rideDetails_describe)
  from Cons.IH [OF this] obtain s' where
    "viewRides_loop fd h (map Some as) ?s1 = Some s'"
    "buf s' = buf ?s1 @ concat (map (\<lambda>a. describe fd True 2 (h a)) as)" by blast
  with Cons.prems show ?case by (simp add: rideDetails_describe)
qed

lemma viewRides_loop_text:
  "\<exists>s'. viewRides_loop fd h (map Some (a # as)) s = Some s' \<and>
        buf s' = buf s @ describe fd (is_fixed s) (prec s) (h a) @
                 concat (map (\<lambda>a. describe fd True 2 (h a)) as)"
proof -
  let ?s1 = "rideDetails fd (h a) s"
  have "is_fixed ?s1" "prec ?s1 = 2" by (simp_all add: rideDetails_describe)
  from viewRides_loop_fixed [OF this, of fd h as] show ?thesis
    by (simp add: rideDetails_describe)
qed

text \<open>A history never holds a null pointer: a new rider has none, and \<open>requestRide\<close>
  stores none. So the histories of riders are the lists \<open>map Some as\<close>.\<close>

lemma Rider_no_null: "requestedRides (Rider i n) = map Some []"
  by (simp add: Rider_def)

lemma requestRide_no_null:
  assumes "requestedRides r = map Some as"
  shows "\<exists>bs. requestedRides (fst (requestRide r p)) = map Some bs"
proof (cases p)
  case None
  with assms show ?thesis by (auto simp: requestRide_def)
next
  case (Some a)
  with assms have "requestedRides (fst (requestRide r p)) = map Some (as @ [a])"
    by (simp add: requestRide_def)
  then show ?thesis ..
qed

text \<open>
  C6: for every rider, \<open>viewRides\<close> writes its header and then, when the history is
  empty, the line \<open>No rides requested yet.\<close>; otherwise it writes what \<open>rideDetails\<close>
  writes for each ride of the history, in the order of insertion (from the second ride
  on, the stream is fixed with precision 2, as the first call of \<open>rideDetails\<close> leaves
  it).
\<close>

theorem viewRides_text:
  assumes "requestedRides r = map Some as"
  shows "\<exists>s'. viewRides fd h r s = Some s' \<and>
     buf s' =
       buf s @ ''Rider ID: '' @ show_int (sint (riderID r)) @
       ''\<newline>Name: '' @ riderName r @
       ''\<newline>Requested Rides History:'' @ ''\<newline>'' @
       (case as of
          [] \<Rightarrow> ''No rides requested yet.'' @ ''\<newline>''
        | a # bs \<Rightarrow> describe fd (is_fixed s) (prec s) (h a) @
                    concat (map (\<lambda>b. describe fd True 2 (h b)) bs))"
proof (cases as)
  case Nil
  with assms show ?thesis by (simp add: viewRides_def put_defs)
next
  case (Cons a bs)
  let ?s0 = "endl (put_str ''\<newline>Requested Rides History:'' (put_str (riderName r)
     (put_str ''\<newline>Name: '' (put_int (riderID r) (put_str ''Rider ID: '' s)))))"
  from viewRides_loop_text [of fd h a bs ?s0] obtain s' where
    "viewRides_loop fd h (map Some (a # bs)) ?s0 = Some s'"
    "buf s' = buf ?s0 @ describe fd (is_fixed ?s0) (prec ?s0) (h a) @
                 concat (map (\<lambda>a. describe fd True 2 (h a)) bs)" by blast
  with assms Cons show ?thesis by (simp add: viewRides_def put_defs)
qed

text \<open>A rider without rides, and a rider who requested the same ride twice, on a new
  stream; the renderer of this example writes \<open>F\<close> in fixed notation and \<open>G\<close> otherwise.\<close>

theorem viewRides_text_witness:
  "requestedRides (Rider 202 ''Bob'') = map Some [] \<and>
   (\<exists>s'. viewRides (\<lambda>fx pr x. if fx then ''F'' else ''G'')
            (\<lambda>a. \<lparr>kind = Standard, rideID = 5, pickupLocation = ''Home'',
                   dropoffLocation = ''Gym'', distance = 0x4000000000000000,
                   fare = 0x4008000000000000\<rparr>)
            (Rider 202 ''Bob'') cout0 = Some s' \<and>
      buf s' = ''Rider ID: 202\<newline>Name: Bob\<newline>Requested Rides History:\<newline>No rides requested yet.\<newline>'') \<and>
   requestedRides \<lparr>riderID = 201, riderName = ''Alice'', requestedRides = [Some 0, Some 0]\<rparr> =
     map Some [0, 0] \<and>
   (\<exists>s'. viewRides (\<lambda>fx pr x. if fx then ''F'' else ''G'')
            (\<lambda>a. \<lparr>kind = Standard, rideID = 5, pickupLocation = ''Home'',
                   dropoffLocation = ''Gym'', distance = 0x4000000000000000,
                   fare = 0x4008000000000000\<rparr>)
            \<lparr>riderID = 201, riderName = ''Alice'', requestedRides = [Some 0, Some 0]\<rparr> cout0 =
          Some s' \<and>
      buf s' = ''Rider ID: 201\<newline>Name: Alice\<newline>Requested Rides History:\<newline>'' @
        ''Ride ID: 5\<newline>Pickup: Home\<newline>Dropoff: Gym\<newline>Distance: G miles\<newline>Fare: $F (Standard Ride)\<newline>'' @
        ''Ride ID: 5\<newline>Pickup: Home\<newline>Dropoff: Gym\<newline>Distance: F miles\<newline>Fare: $F (Standard Ride)\<newline>'')"
proof -
  let ?fd = "\<lambda>(fx::bool) (pr::nat) (x::double). if fx then ''F'' else ''G''"
  let ?h = "\<lambda>a::nat. \<lparr>kind = Standard, rideID = 5, pickupLocation = ''Home'',
                   dropoffLocation = ''Gym'', distance = 0x4000000000000000,
                   fare = 0x4008000000000000\<rparr>"
  let ?A = "\<lparr>riderID = 201, riderName = ''Alice'', requestedRides = [Some (0::nat), Some 0]\<rparr>"
  have a: "requestedRides (Rider 202 ''Bob'') = map Some []" by (simp add: Rider_def)
  have b: "requestedRides ?A = map Some [0, 0]" by simp
  have c: "show_int (sint (202 :: 32 word)) = ''202''" "show_int (sint (201 :: 32 word)) = ''201''"
    "show_int (sint (5 :: 32 word)) = ''5''"
    by (simp_all add: show_int_def show_nat.simps digit_def)
  have d: "describe ?fd False 6 (?h 0) =
      ''Ride ID: 5\<newline>Pickup: Home\<newline>Dropoff: Gym\<newline>Distance: G miles\<newline>Fare: $F (Standard Ride)\<newline>''"
    "describe ?fd True 2 (?h 0) =
      ''Ride ID: 5\<newline>Pickup: Home\<newline>Dropoff: Gym\<newline>Distance: F miles\<newline>Fare: $F (Standard Ride)\<newline>''"
    by (simp_all add: describe_def rideDetails_def Ride_rideDetails_def put_defs
        show_int_def show_nat.simps digit_def)
  from viewRides_text [OF a, of ?fd ?h cout0] c
  have e: "\<exists>s'. viewRides ?fd ?h (Rider 202 ''Bob'') cout0 = Some s' \<and>
      buf s' = ''Rider ID: 202\<newline>Name: Bob\<newline>Requested Rides History:\<newline>No rides requested yet.\<newline>''"
    by (simp add: cout0_def Rider_def)
  from viewRides_text [OF b, of ?fd ?h cout0] c d
  have f: "\<exists>s'. viewRides ?fd ?h ?A cout0 = Some s' \<and>
      buf s' = ''Rider ID: 201\<newline>Name: Alice\<newline>Requested Rides History:\<newline>'' @
        ''Ride ID: 5\<newline>Pickup: Home\<newline>Dropoff: Gym\<newline>Distance: G miles\<newline>Fare: $F (Standard Ride)\<newline>'' @
        ''Ride ID: 5\<newline>Pickup: Home\<newline>Dropoff: Gym\<newline>Distance: F miles\<newline>Fare: $F (Standard Ride)\<newline>''"
    by (simp add: cout0_def)
  from a b e f show ?thesis by (intro conjI)
qed

subsection \<open>What changes a fare\<close>

lemma calculateFare_fields:
  "kind (calculateFare r) = kind r" "rideID (calculateFare r) = rideID r"
  "pickupLocation (calculateFare r) = pickupLocation r"
  "dropoffLocation (calculateFare r) = dropoffLocation r"
  "distance (calculateFare r) = distance r"
  by (cases "kind r"; simp add: calculateFare_def)+

lemma make_shared_frame:
  "a < nrides w \<Longrightarrow> rides (make_shared res w) a = rides w a"
  "nrides w \<le> nrides (make_shared res w)"
  by (cases res; simp add: make_shared_def)+

lemma step_nrides: "nrides w \<le> nrides (step fd w c)"
  by (cases c) (simp_all add: make_shared_frame split: sum.splits option.splits)

lemma step_frame:
  "c \<noteq> CalculateFare a \<Longrightarrow> a < nrides w \<Longrightarrow> rides (step fd w c) a = rides w a"
  by (cases c) (simp_all add: make_shared_frame split: sum.splits option.splits)

lemma run_frame:
  "CalculateFare a \<notin> set cs \<Longrightarrow> a < nrides w \<Longrightarrow> rides (run fd w cs) a = rides w a"
proof (induction cs arbitrary: w)
  case Nil
  then show ?case by simp
next
  case (Cons c cs)
  from Cons.prems have c: "c \<noteq> CalculateFare a" and cs: "CalculateFare a \<notin> set cs" by auto
  from Cons.prems step_nrides [of w fd c] have lt: "a < nrides (step fd w c)" by simp
  from Cons.IH [OF cs lt] step_frame [OF c Cons.prems(2)] show ?case by simp
qed

lemma new_ride_fare:
  "dgt d d0 \<Longrightarrow> fare (rides (make_shared (Ride k i p q d) w) (nrides w)) = d0 \<and>
     nrides w < nrides (make_shared (Ride k i p q d) w)"
  by (simp add: make_shared_def Ride_def dgt_not_dle)

text \<open>
  C8: \<open>calculateFare\<close> changes only the fare of its ride: the dynamic type, id, pickup
  location, dropoff location and distance stay, and so does every other ride. No call
  other than \<open>calculateFare\<close> on a ride changes that ride, whatever the client calls, in
  whatever order; so a ride's fare remains \<open>0.0\<close>, as the constructor set it, until
  \<open>calculateFare\<close> is first called on it.
\<close>

theorem fare_changes_only_in_calculateFare:
  "kind (calculateFare r) = kind r \<and> rideID (calculateFare r) = rideID r \<and>
   pickupLocation (calculateFare r) = pickupLocation r \<and>
   dropoffLocation (calculateFare r) = dropoffLocation r \<and>
   distance (calculateFare r) = distance r \<and>
   rides (step fd w (CalculateFare a)) a = calculateFare (rides w a) \<and>
   (\<forall>b. b \<noteq> a \<longrightarrow> rides (step fd w (CalculateFare a)) b = rides w b) \<and>
   (a < nrides w \<and> c \<noteq> CalculateFare a \<longrightarrow> rides (step fd w c) a = rides w a) \<and>
   (a < nrides w \<and> CalculateFare a \<notin> set cs \<longrightarrow> rides (run fd w cs) a = rides w a) \<and>
   (dgt d d0 \<and> CalculateFare (nrides w) \<notin> set cs \<longrightarrow>
      fare (rides (run fd (step fd w (NewStandardRide i p q d)) cs) (nrides w)) = d0 \<and>
      fare (rides (run fd (step fd w (NewPremiumRide i p q d)) cs) (nrides w)) = d0)"
proof -
  have "fare (rides (run fd (step fd w (NewStandardRide i p q d)) cs) (nrides w)) = d0 \<and>
      fare (rides (run fd (step fd w (NewPremiumRide i p q d)) cs) (nrides w)) = d0"
    if d: "dgt d d0" and cs: "CalculateFare (nrides w) \<notin> set cs"
    using new_ride_fare [OF d, of Standard i p q w] new_ride_fare [OF d, of Premium i p q w]
      run_frame [OF cs, of "step fd w (NewStandardRide i p q d)" fd]
      run_frame [OF cs, of "step fd w (NewPremiumRide i p q d)" fd]
    by (simp add: StandardRide_def PremiumRide_def)
  then show ?thesis
    by (simp add: calculateFare_fields step_frame run_frame)
qed

text \<open>The first ride of \<open>main\<close>, followed by calls of every other kind and by
  \<open>calculateFare\<close> on another ride.\<close>

theorem fare_changes_only_in_calculateFare_witness:
  "dgt 0x4014000000000000 d0 \<and>
   CalculateFare 0 \<notin> set [NewDriver 101 ''John Doe'' 0x4013333333333333, AddRide 0 (Some 0),
      GetDriverInfo 0, RideDetails 0, NewRider 201 ''Alice'', RequestRide 0 (Some 0),
      ViewRides 0, NewPremiumRide 2 ''Home'' ''Airport'' 0x402E000000000000, CalculateFare 1] \<and>
   fare (rides (run (\<lambda>fx pr x. ''0.00'')
       (step (\<lambda>fx pr x. ''0.00'')
          \<lparr>rides = \<lambda>a. \<lparr>kind = Standard, rideID = 0, pickupLocation = [],
             dropoffLocation = [], distance = 0, fare = 0\<rparr>, nrides = 0, drivers = [], riders = [], cout = cout0\<rparr>
          (NewStandardRide 1 ''Home'' ''Work'' 0x4014000000000000))
       [NewDriver 101 ''John Doe'' 0x4013333333333333, AddRide 0 (Some 0),
        GetDriverInfo 0, RideDetails 0, NewRider 201 ''Alice'', RequestRide 0 (Some 0),
        ViewRides 0, NewPremiumRide 2 ''Home'' ''Airport'' 0x402E000000000000, CalculateFare 1]) 0) = d0"
proof -
  have a: "dgt 0x4014000000000000 d0" by (simp add: dbl_eval)
  have b: "CalculateFare 0 \<notin> set [NewDriver 101 ''John Doe'' 0x4013333333333333, AddRide 0 (Some 0),
      GetDriverInfo 0, RideDetails 0, NewRider 201 ''Alice'', RequestRide 0 (Some 0),
      ViewRides 0, NewPremiumRide 2 ''Home'' ''Airport'' 0x402E000000000000, CalculateFare 1]"
    by simp
  note t = fare_changes_only_in_calculateFare [where fd = "\<lambda>fx pr x. ''0.00''"
      and w = "\<lparr>rides = \<lambda>a. \<lparr>kind = Standard, rideID = 0, pickupLocation = [],
             dropoffLocation = [], distance = 0, fare = 0\<rparr>, nrides = 0, drivers = [], riders = [], cout = cout0\<rparr>"
      and d = "0x4014000000000000" and i = 1 and p = "''Home''" and q = "''Work''",
      THEN conjunct2, THEN conjunct2, THEN conjunct2, THEN conjunct2, THEN conjunct2,
      THEN conjunct2, THEN conjunct2, THEN conjunct2, THEN conjunct2]
  have n: "nrides \<lparr>rides = \<lambda>a. \<lparr>kind = Standard, rideID = 0, pickupLocation = [],
             dropoffLocation = [], distance = 0, fare = 0\<rparr>, nrides = 0, drivers = [], riders = [],
      cout = cout0\<rparr> = 0" by simp
  from mp [OF t [unfolded n] conjI [OF a b]] a b show ?thesis by (intro conjI) simp_all
qed

subsection \<open>Rides whose fare was never calculated\<close>

text \<open>
  C10: \<open>addRide\<close> and \<open>requestRide\<close> accept a pointer to a ride as its constructor left
  it, with fare \<open>0.0\<close> and \<open>calculateFare\<close> never called: the pointer is appended to the
  history, and \<open>getDriverInfo\<close> counts it among the completed rides. Neither method
  reads the store, so neither can check the fare.
\<close>

theorem uncalculated_ride_accepted:
  assumes "Ride k i p q dst = Inr r" and "h a = r"
  shows "fare (h a) = d0 \<and>
     addRide d (Some a) = (d\<lparr>assignedRides := assignedRides d @ [Some a]\<rparr>, None) \<and>
     requestRide rd (Some a) = (rd\<lparr>requestedRides := requestedRides rd @ [Some a]\<rparr>, None) \<and>
     buf (getDriverInfo fd (fst (addRide d (Some a))) s) =
       buf s @ ''Driver ID: '' @ show_int (sint (driverID d)) @
       ''\<newline>Name: '' @ driverName d @
       ''\<newline>Rating: '' @ fd True 2 (rating d) @
       ''\<newline>Completed Rides: '' @ show_nat (Suc (length (assignedRides d))) @ ''\<newline>''"
proof -
  from assms(1) have "fare r = d0"
    by (auto simp: Ride_def split: if_splits)
  with assms(2) show ?thesis
    by (simp add: addRide_def requestRide_def getDriverInfo_def put_defs)
qed

text \<open>The third ride of \<open>main\<close>, without its call of \<open>calculateFare\<close>, given to the driver
  and the rider of \<open>main\<close>.\<close>

theorem uncalculated_ride_accepted_witness:
  "Ride Standard 3 ''Downtown'' ''Mall'' 0x4008000000000000 =
     Inr \<lparr>kind = Standard, rideID = 3, pickupLocation = ''Downtown'', dropoffLocation = ''Mall'',
          distance = 0x4008000000000000, fare = 0\<rparr> \<and>
   assignedRides (fst (addRide \<lparr>driverID = 101, driverName = ''John Doe'',
       rating = 0x4013333333333333, assignedRides = []\<rparr> (Some 0))) = [Some 0] \<and>
   requestedRides (fst (requestRide (Rider 201 ''Alice'') (Some 0))) = [Some 0] \<and>
   buf (getDriverInfo (\<lambda>fx pr x. ''4.80'')
     (fst (addRide \<lparr>driverID = 101, driverName = ''John Doe'',
       rating = 0x4013333333333333, assignedRides = []\<rparr> (Some 0))) cout0) =
     ''Driver ID: 101\<newline>Name: John Doe\<newline>Rating: 4.80\<newline>Completed Rides: 1\<newline>''"
proof -
  let ?r = "\<lparr>kind = Standard, rideID = 3, pickupLocation = ''Downtown'', dropoffLocation = ''Mall'',
          distance = 0x4008000000000000, fare = 0\<rparr>"
  let ?D = "\<lparr>driverID = 101, driverName = ''John Doe'',
       rating = 0x4013333333333333, assignedRides = []\<rparr>"
  have a: "Ride Standard 3 ''Downtown'' ''Mall'' 0x4008000000000000 = Inr ?r"
    by (simp add: Ride_def dbl_eval)
  have b: "(\<lambda>a::nat. ?r) 0 = ?r" by simp
  have c: "show_int (sint (101 :: 32 word)) = ''101''" "show_nat (Suc 0) = ''1''"
    by (simp_all add: show_int_def show_nat.simps digit_def)
  note t = uncalculated_ride_accepted [where h = "\<lambda>a. ?r" and a = 0 and d = ?D
      and rd = "Rider 201 ''Alice''" and fd = "\<lambda>fx pr x. ''4.80''" and s = cout0, OF a b]
  have "assignedRides (fst (addRide ?D (Some 0))) = [Some 0]"
    using t [THEN conjunct2, THEN conjunct1] by simp
  moreover have "requestedRides (fst (requestRide (Rider 201 ''Alice'') (Some 0))) = [Some 0]"
    using t [THEN conjunct2, THEN conjunct2, THEN conjunct1] by (simp add: Rider_def)
  moreover have "buf (getDriverInfo (\<lambda>fx pr x. ''4.80'') (fst (addRide ?D (Some 0))) cout0) =
     ''Driver ID: 101\<newline>Name: John Doe\<newline>Rating: 4.80\<newline>Completed Rides: 1\<newline>''"
    using t [THEN conjunct2, THEN conjunct2, THEN conjunct2] c by (simp add: cout0_def)
  ultimately show ?thesis using a by (intro conjI)
qed

end
